theory Spec2Isabelle
  imports Complex_Main "HOL-Library.Sublist"
begin

text \<open>
  The menu application of \<^verbatim>\<open>src/App.tsx\<close>: its navigation stack, its menu store, the
  course filter and the averages of the home screen, the add-item form of the chef screen
  and the screen dispatcher.  State held by React hooks is passed explicitly; a state
  update is the function given to the setter.
\<close>

section \<open>JavaScript numbers and strings\<close>

text \<open>
  A JavaScript Number is an IEEE-754 double.  \<open>Fin x\<close> is the finite double whose value is
  the rational \<open>x\<close>; the two zeros are one value, \<open>Fin 0\<close> (the program never divides by a
  zero and never prints its sign, so nothing it computes tells them apart).
\<close>

datatype number = NaN | PosInfinity | NegInfinity | Fin rat

definition pow2 :: "int \<Rightarrow> rat" where
  "pow2 q = (if 0 \<le> q then 2 ^ nat q else 1 / 2 ^ nat (- q))"

definition pow10 :: "int \<Rightarrow> rat" where
  "pow10 q = (if 0 \<le> q then 10 ^ nat q else 1 / 10 ^ nat (- q))"

text \<open>The binary exponent of a positive rational \<open>a\<close>: the \<open>e\<close> with \<open>2^e \<le> a < 2^(e+1)\<close>,
  found by halving from above \<open>1\<close> and by doubling from below.\<close>

function log2_up :: "rat \<Rightarrow> int" where
  "log2_up a = (if a < 2 then 0 else 1 + log2_up (a / 2))"
  by pat_completeness auto
termination
proof (relation "measure (\<lambda>a. nat \<lfloor>a\<rfloor>)")
  show "wf (measure (\<lambda>a::rat. nat \<lfloor>a\<rfloor>))" by simp
next
  fix a :: rat
  assume "\<not> a < 2"
  then have a: "2 \<le> a" by simp
  have "a < of_int \<lfloor>a\<rfloor> + 1" by linarith
  moreover from a have "2 \<le> \<lfloor>a\<rfloor>" by simp
  then have "(2::rat) \<le> of_int \<lfloor>a\<rfloor>" by (metis of_int_numeral of_int_le_iff)
  ultimately have "a / 2 < of_int \<lfloor>a\<rfloor>" by linarith
  then have "\<lfloor>a / 2\<rfloor> < \<lfloor>a\<rfloor>" by (simp add: floor_less_iff)
  moreover from a have "0 < \<lfloor>a\<rfloor>" by simp
  ultimately show "(a / 2, a) \<in> measure (\<lambda>a. nat \<lfloor>a\<rfloor>)" by simp
qed

function log2_down :: "rat \<Rightarrow> int" where
  "log2_down a = (if a \<le> 0 \<or> 1 \<le> a then 0 else log2_down (2 * a) - 1)"
  by pat_completeness auto
termination
proof (relation "measure (\<lambda>a. nat \<lfloor>1 / a\<rfloor>)")
  show "wf (measure (\<lambda>a::rat. nat \<lfloor>1 / a\<rfloor>))" by simp
next
  fix a :: rat
  assume "\<not> (a \<le> 0 \<or> 1 \<le> a)"
  then have a: "0 < a" "a < 1" by simp_all
  then have y: "1 \<le> 1 / a" by simp
  have half: "\<lfloor>y / 2\<rfloor> < \<lfloor>y\<rfloor>" if "1 \<le> y" for y :: rat
  proof -
    have "y < of_int \<lfloor>y\<rfloor> + 1" by linarith
    moreover from that have "1 \<le> \<lfloor>y\<rfloor>" by simp
    then have "(1::rat) \<le> of_int \<lfloor>y\<rfloor>" by (metis of_int_1 of_int_le_iff)
    ultimately have "y / 2 < of_int \<lfloor>y\<rfloor>" by linarith
    then show ?thesis by (simp add: floor_less_iff)
  qed
  from half [OF y] have "\<lfloor>(1 / a) / 2\<rfloor> < \<lfloor>1 / a\<rfloor>" .
  moreover from y have "0 < \<lfloor>1 / a\<rfloor>" by simp
  moreover have "1 / (2 * a) = (1 / a) / 2" by simp
  ultimately show "(2 * a, a) \<in> measure (\<lambda>a. nat \<lfloor>1 / a\<rfloor>)"
    by (simp only: in_measure)
qed

declare log2_up.simps [simp del] log2_down.simps [simp del]

definition ilog2 :: "rat \<Rightarrow> int" where
  "ilog2 a = (if 1 \<le> a then log2_up a else log2_down a)"

text \<open>Round to the nearest integer, a tie to the even one (the rounding of IEEE-754).\<close>

definition round_half_even :: "rat \<Rightarrow> int" where
  "round_half_even r =
     (if r - of_int \<lfloor>r\<rfloor> < 1 / 2 then \<lfloor>r\<rfloor>
      else if 1 / 2 < r - of_int \<lfloor>r\<rfloor> then \<lfloor>r\<rfloor> + 1
      else if even \<lfloor>r\<rfloor> then \<lfloor>r\<rfloor> else \<lfloor>r\<rfloor> + 1)"

text \<open>A positive rational rounded to 53 significant bits, the unit in the last place no
  smaller than \<open>2^-1074\<close> (the subnormal doubles); the exponent is not bounded above here.\<close>

definition nearest_double :: "rat \<Rightarrow> rat" where
  "nearest_double a =
     of_int (round_half_even (a / pow2 (max (ilog2 a - 52) (- 1074))))
       * pow2 (max (ilog2 a - 52) (- 1074))"

text \<open>The Number value for a real: the nearest double, an infinity from \<open>2^1024\<close> on.\<close>

definition fl :: "rat \<Rightarrow> number" where
  "fl x =
     (if x = 0 then Fin 0
      else if 2 ^ 1024 \<le> nearest_double \<bar>x\<bar> then (if 0 < x then PosInfinity else NegInfinity)
      else Fin (if 0 < x then nearest_double \<bar>x\<bar> else - nearest_double \<bar>x\<bar>))"

text \<open>The operators the program applies to numbers: \<^verbatim>\<open>s + i.price\<close>, the division of a
  sum by an array length (an integer below \<open>2^32\<close>, which a double holds exactly),
  \<^verbatim>\<open>parsedPrice < 0\<close> and \<^verbatim>\<open>Number.isNaN\<close>.\<close>

fun num_add :: "number \<Rightarrow> number \<Rightarrow> number" where
  "num_add NaN _ = NaN"
| "num_add _ NaN = NaN"
| "num_add PosInfinity NegInfinity = NaN"
| "num_add NegInfinity PosInfinity = NaN"
| "num_add PosInfinity _ = PosInfinity"
| "num_add _ PosInfinity = PosInfinity"
| "num_add NegInfinity _ = NegInfinity"
| "num_add _ NegInfinity = NegInfinity"
| "num_add (Fin x) (Fin y) = fl (x + y)"

fun num_div_length :: "number \<Rightarrow> nat \<Rightarrow> number" where
  "num_div_length NaN n = NaN"
| "num_div_length PosInfinity n = PosInfinity"
| "num_div_length NegInfinity n = NegInfinity"
| "num_div_length (Fin x) n =
     (if n = 0 then (if x = 0 then NaN else if 0 < x then PosInfinity else NegInfinity)
      else fl (x / of_nat n))"

fun num_less :: "number \<Rightarrow> number \<Rightarrow> bool" where
  "num_less NaN _ = False"
| "num_less _ NaN = False"
| "num_less PosInfinity _ = False"
| "num_less _ PosInfinity = True"
| "num_less _ NegInfinity = False"
| "num_less NegInfinity _ = True"
| "num_less (Fin x) (Fin y) = (x < y)"

definition isNaN :: "number \<Rightarrow> bool" where
  "isNaN x = (x = NaN)"

text \<open>
  \<^verbatim>\<open>parseFloat(x.toFixed(2))\<close>, the value.  \<^verbatim>\<open>toFixed(2)\<close> prints NaN and the infinities by
  name, and a number from \<open>10^21\<close> on as \<^verbatim>\<open>ToString\<close> does; \<^verbatim>\<open>parseFloat\<close> reads each of
  these back as the number it was.  Below \<open>10^21\<close> it prints \<open>n / 100\<close> with two decimals,
  for the integer \<open>n\<close> nearest to \<open>100 * x\<close> (the larger \<open>n\<close> on a tie; a negative \<open>x\<close> as
  the sign and the digits of \<open>- x\<close>), and \<^verbatim>\<open>parseFloat\<close> returns the double nearest to
  that decimal.
\<close>

definition parseFloat_toFixed2 :: "number \<Rightarrow> number" where
  "parseFloat_toFixed2 x =
     (case x of
        NaN \<Rightarrow> NaN
      | PosInfinity \<Rightarrow> PosInfinity
      | NegInfinity \<Rightarrow> NegInfinity
      | Fin v \<Rightarrow>
          if 10 ^ 21 \<le> \<bar>v\<bar> then Fin v
          else if v < 0 then fl (- (of_int \<lfloor>100 * (- v) + 1 / 2\<rfloor> / 100))
          else fl (of_int \<lfloor>100 * v + 1 / 2\<rfloor> / 100))"

text \<open>Strings are lists of code units; a \<open>char\<close> holds the code units up to \<open>0xFF\<close>.  The
  white space of \<^verbatim>\<open>trim\<close> and \<^verbatim>\<open>parseFloat\<close> in that range: TAB, LF, VT, FF, CR, space and
  the no-break space.\<close>

definition isWhiteSpace :: "char \<Rightarrow> bool" where
  "isWhiteSpace c = (c \<in> {CHR 0x09, CHR 0x0A, CHR 0x0B, CHR 0x0C, CHR 0x0D, CHR 0x20, CHR 0xA0})"

definition trim :: "string \<Rightarrow> string" where
  "trim s = rev (dropWhile isWhiteSpace (rev (dropWhile isWhiteSpace s)))"

definition isDigit :: "char \<Rightarrow> bool" where
  "isDigit c = (c \<in> set ''0123456789'')"

definition digit_value :: "char \<Rightarrow> nat" where
  "digit_value c = of_char c - 48"

definition digits_value :: "string \<Rightarrow> nat" where
  "digits_value ds = foldl (\<lambda>a c. 10 * a + digit_value c) 0 ds"

text \<open>
  \<^verbatim>\<open>parseFloat\<close> skips leading white space and reads the longest prefix that is a
  \<^verbatim>\<open>StrDecimalLiteral\<close>: a sign, then \<^verbatim>\<open>Infinity\<close> or digits with an optional fraction and
  an optional exponent (\<^verbatim>\<open>5\<close>, \<^verbatim>\<open>5.\<close>, \<^verbatim>\<open>5.25\<close>, \<^verbatim>\<open>.25\<close>, \<^verbatim>\<open>5e-3\<close>).  What follows the
  prefix is ignored; with no such prefix the result is NaN.  The exponent part counts only
  when it has a digit.
\<close>

definition exponentPart :: "string \<Rightarrow> int" where
  "exponentPart r =
     (case r of
        [] \<Rightarrow> 0
      | c # cs \<Rightarrow>
          if c = CHR ''e'' \<or> c = CHR ''E'' then
            (case cs of
               [] \<Rightarrow> 0
             | d # ds \<Rightarrow>
                 if d = CHR ''-'' then - int (digits_value (takeWhile isDigit ds))
                 else if d = CHR ''+'' then int (digits_value (takeWhile isDigit ds))
                 else int (digits_value (takeWhile isDigit cs)))
          else 0)"

definition fractionDigits :: "string \<Rightarrow> string" where
  "fractionDigits r =
     (case r of [] \<Rightarrow> [] | c # cs \<Rightarrow> if c = CHR ''.'' then takeWhile isDigit cs else [])"

definition afterFraction :: "string \<Rightarrow> string" where
  "afterFraction r =
     (case r of [] \<Rightarrow> [] | c # cs \<Rightarrow> if c = CHR ''.'' then dropWhile isDigit cs else r)"

definition strUnsignedDecimalLiteral :: "string \<Rightarrow> number option" where
  "strUnsignedDecimalLiteral s =
     (if take 8 s = ''Infinity'' then Some PosInfinity
      else if takeWhile isDigit s = [] \<and> fractionDigits (dropWhile isDigit s) = [] then None
      else Some (fl (of_nat (digits_value (takeWhile isDigit s @ fractionDigits (dropWhile isDigit s)))
                     * pow10 (exponentPart (afterFraction (dropWhile isDigit s))
                              - int (length (fractionDigits (dropWhile isDigit s)))))))"

definition num_neg :: "number \<Rightarrow> number" where
  "num_neg x =
     (case x of NaN \<Rightarrow> NaN | PosInfinity \<Rightarrow> NegInfinity | NegInfinity \<Rightarrow> PosInfinity
      | Fin v \<Rightarrow> Fin (- v))"

definition strDecimalLiteral :: "string \<Rightarrow> number option" where
  "strDecimalLiteral s =
     (case s of
        [] \<Rightarrow> None
      | c # cs \<Rightarrow>
          if c = CHR ''-'' then map_option num_neg (strUnsignedDecimalLiteral cs)
          else if c = CHR ''+'' then strUnsignedDecimalLiteral cs
          else strUnsignedDecimalLiteral s)"

definition parseFloat :: "string \<Rightarrow> number" where
  "parseFloat inputString =
     (case strDecimalLiteral (dropWhile isWhiteSpace inputString) of
        None \<Rightarrow> NaN
      | Some v \<Rightarrow> v)"

text \<open>\<^verbatim>\<open>Date.now().toString()\<close>: the decimal digits of a count of milliseconds.\<close>

function toString_nat :: "nat \<Rightarrow> string" where
  "toString_nat n =
     (if n < 10 then [''0123456789'' ! n]
      else toString_nat (n div 10) @ [''0123456789'' ! (n mod 10)])"
  by pat_completeness auto
termination
  by (relation "measure (\<lambda>n. n)") auto

declare toString_nat.simps [simp del]

section \<open>Data model of App.tsx\<close>

text \<open>\<^verbatim>\<open>interface MenuItem { id; name; course; addOn; price }\<close>  (the field \<open>id\<close> is
  written \<open>id'\<close>, since \<open>id\<close> is the identity function of HOL).\<close>

record MenuItem =
  id' :: string
  name :: string
  course :: string
  addOn :: string
  price :: number

text \<open>\<^verbatim>\<open>params: { item?: MenuItem }\<close>: an absent item is \<open>None\<close>.\<close>

record Params =
  item :: "MenuItem option"

text \<open>\<^verbatim>\<open>interface Route { name: ScreenName; params }\<close>.  A screen name is the string the
  program compares with \<^verbatim>\<open>===\<close>; the type \<^verbatim>\<open>ScreenName\<close> lists six of them.\<close>

record Route =
  route_name :: string
  params :: Params

definition COURSES :: "string list" where
  "COURSES = [''Starter'', ''Main'', ''Dessert'', ''Beverage'']"

definition ADDONS :: "string list" where
  "ADDONS = [''Extra Sauce'', ''Salad'', ''Fries'', ''None'']"

section \<open>The navigation stack (useSimpleStack)\<close>

text \<open>Each operation is the updater passed to \<^verbatim>\<open>setStack\<close>, a function of the previous
  stack.  \<^verbatim>\<open>navigate\<close> has the default \<^verbatim>\<open>params = {}\<close> for an omitted argument.\<close>

definition no_params :: Params where
  "no_params = \<lparr>item = None\<rparr>"

definition navigate :: "string \<Rightarrow> Params option \<Rightarrow> Route list \<Rightarrow> Route list" where
  "navigate nm ps prev =
     prev @ [\<lparr>route_name = nm, params = (case ps of None \<Rightarrow> no_params | Some p \<Rightarrow> p)\<rparr>]"

definition goBack :: "Route list \<Rightarrow> Route list" where
  "goBack prev = (if length prev > 1 then butlast prev else prev)"

definition popToTop :: "Route list \<Rightarrow> Route list" where
  "popToTop prev = (if length prev \<noteq> 0 then [prev ! 0] else prev)"

definition useSimpleStack :: "Route \<Rightarrow> Route list" where
  "useSimpleStack initialRoute = [initialRoute]"

definition home_route :: Route where
  "home_route = \<lparr>route_name = ''Home'', params = no_params\<rparr>"

definition initial_stack :: "Route list" where
  "initial_stack = useSimpleStack home_route"

text \<open>\<^verbatim>\<open>const current = stack[stack.length - 1]\<close>: \<^verbatim>\<open>undefined\<close> on an empty array.\<close>

definition current :: "Route list \<Rightarrow> Route option" where
  "current stack = (if stack = [] then None else Some (stack ! (length stack - 1)))"

text \<open>The calls a screen can make on the navigation object, and a run of them.\<close>

datatype nav_op = Navigate string "Params option" | GoBack | PopToTop

fun apply_nav :: "Route list \<Rightarrow> nav_op \<Rightarrow> Route list" where
  "apply_nav s (Navigate nm ps) = navigate nm ps s"
| "apply_nav s GoBack = goBack s"
| "apply_nav s PopToTop = popToTop s"

definition run_nav :: "nav_op list \<Rightarrow> Route list" where
  "run_nav ops = foldl apply_nav initial_stack ops"

section \<open>The menu store (menuItems of App)\<close>

definition seed_items :: "MenuItem list" where
  "seed_items =
     [\<lparr>id' = ''1'', name = ''Tomato Soup'', course = ''Starter'', addOn = '''', price = Fin 45\<rparr>,
      \<lparr>id' = ''2'', name = ''Grilled Steak'', course = ''Main'', addOn = ''Fries'', price = Fin 220\<rparr>]"

definition addItem :: "MenuItem \<Rightarrow> MenuItem list \<Rightarrow> MenuItem list" where
  "addItem it prev = it # prev"

definition removeItem :: "string \<Rightarrow> MenuItem list \<Rightarrow> MenuItem list" where
  "removeItem i prev = filter (\<lambda>x. id' x \<noteq> i) prev"

section \<open>The course filter of HomeScreen and GuestFilterScreen\<close>

text \<open>The prop \<^verbatim>\<open>menuItems?: MenuItem[]\<close> is optional; \<^verbatim>\<open>menuItems || []\<close> reads an
  absent one as the empty array (an array, also an empty one, is truthy).\<close>

definition or_empty :: "MenuItem list option \<Rightarrow> MenuItem list" where
  "or_empty menuItems = (case menuItems of None \<Rightarrow> [] | Some xs \<Rightarrow> xs)"

text \<open>HomeScreen: \<^verbatim>\<open>const displayed = filter === 'All' ? menuItems || [] :
  (menuItems || []).filter((it) => it.course === filter)\<close>.\<close>

definition displayed :: "MenuItem list option \<Rightarrow> string \<Rightarrow> MenuItem list" where
  "displayed menuItems flt =
     (if flt = ''All'' then or_empty menuItems
      else filter (\<lambda>it. course it = flt) (or_empty menuItems))"

text \<open>GuestFilterScreen: \<^verbatim>\<open>const filtered = ...\<close>, the same expression.\<close>

definition filtered :: "MenuItem list option \<Rightarrow> string \<Rightarrow> MenuItem list" where
  "filtered menuItems flt =
     (if flt = ''All'' then or_empty menuItems
      else filter (\<lambda>it. course it = flt) (or_empty menuItems))"

section \<open>The screen dispatcher (renderScreen of App)\<close>

text \<open>What a screen component returns, as far as the dispatcher decides it: which screen
  it is, with the data it shows, or a view that holds one line of text only.\<close>

datatype view =
    HomeView "MenuItem list"
  | ChefView "MenuItem list"
  | GuestFilterView "MenuItem list"
  | SelectedCourseView MenuItem
  | PaymentView MenuItem
  | TextOnly string

text \<open>\<^verbatim>\<open>const item = route?.params?.item; if (!item) return <Text>No item selected.</Text>\<close>\<close>

definition SelectedCourseScreen :: "Params \<Rightarrow> view" where
  "SelectedCourseScreen ps =
     (case item ps of None \<Rightarrow> TextOnly ''No item selected.'' | Some it \<Rightarrow> SelectedCourseView it)"

definition PaymentScreen :: "Params \<Rightarrow> view" where
  "PaymentScreen ps =
     (case item ps of None \<Rightarrow> TextOnly ''Error: Missing item for payment.''
      | Some it \<Rightarrow> PaymentView it)"

definition renderScreen :: "Route \<Rightarrow> MenuItem list \<Rightarrow> view" where
  "renderScreen cur menuItems =
     (let nm = route_name cur in
      if nm = ''Home'' then HomeView menuItems
      else if nm = ''Chef'' then ChefView menuItems
      else if nm = ''GuestFilter'' then GuestFilterView menuItems
      else if nm = ''SelectedCourse'' then SelectedCourseScreen (params cur)
      else if nm = ''Payment'' then PaymentScreen (params cur)
      else TextOnly (''Unknown screen: '' @ nm))"

text \<open>One render of \<^verbatim>\<open>App\<close>.  \<^verbatim>\<open>current.params\<close> is read before the dispatch; on an
  empty stack \<^verbatim>\<open>current\<close> is \<^verbatim>\<open>undefined\<close> and the read throws a TypeError.\<close>

datatype js_error = TypeError

definition App :: "Route list \<Rightarrow> MenuItem list \<Rightarrow> js_error + view" where
  "App stack menuItems =
     (case current stack of None \<Rightarrow> Inl TypeError
      | Some cur \<Rightarrow> Inr (renderScreen cur menuItems))"

section \<open>Averages (HomeScreen)\<close>

text \<open>An element of the result of \<^verbatim>\<open>computeAverages\<close>: \<^verbatim>\<open>{ course, average, count }\<close> (the
  field \<^verbatim>\<open>course\<close> is \<open>ca_course\<close> here).\<close>

record CourseAverage =
  ca_course :: string
  average :: number
  count :: nat

text \<open>\<^verbatim>\<open>list.reduce((s, i) => s + i.price, 0)\<close>\<close>

definition sum_prices :: "MenuItem list \<Rightarrow> number" where
  "sum_prices list = foldl (\<lambda>s i. num_add s (price i)) (Fin 0) list"

text \<open>The body of the \<^verbatim>\<open>forEach\<close> callback, for the course \<open>c\<close>, up to the \<^verbatim>\<open>push\<close>.\<close>

definition course_entry :: "MenuItem list \<Rightarrow> string \<Rightarrow> CourseAverage" where
  "course_entry items c =
     (let lst = filter (\<lambda>it. course it = c) items;
          cnt = length lst;
          avg = (if cnt > 0 then num_div_length (sum_prices lst) cnt else Fin 0)
      in \<lparr>ca_course = c, average = parseFloat_toFixed2 avg, count = cnt\<rparr>)"

definition computeAverages :: "MenuItem list \<Rightarrow> CourseAverage list" where
  "computeAverages items = foldl (\<lambda>result c. result @ [course_entry items c]) [] COURSES"

definition overallAverage :: "MenuItem list \<Rightarrow> number" where
  "overallAverage items =
     (if length items = 0 then Fin 0
      else parseFloat_toFixed2 (num_div_length (sum_prices items) (length items)))"

section \<open>The averages in the words of the specification\<close>

text \<open>The specification describes both averages as "the arithmetic mean of the prices
  rounded to 2 decimals".  The mean, in exact arithmetic, of the values of finite prices:\<close>

definition fin_value :: "number \<Rightarrow> rat" where
  "fin_value x = (case x of Fin v \<Rightarrow> v | _ \<Rightarrow> 0)"

definition exact_mean :: "MenuItem list \<Rightarrow> rat" where
  "exact_mean items = sum_list (map (\<lambda>i. fin_value (price i)) items) / of_nat (length items)"

text \<open>A rational rounded to 2 decimals: the nearest multiple of \<open>1/100\<close>, a tie away from
  zero.\<close>

definition rounded2 :: "rat \<Rightarrow> rat" where
  "rounded2 x =
     (if x < 0 then - (of_int \<lfloor>100 * (- x) + 1 / 2\<rfloor> / 100)
      else of_int \<lfloor>100 * x + 1 / 2\<rfloor> / 100)"

text \<open>The average the specification asks for, as the Number that holds it: 0 for no
  items, otherwise the double nearest to the rounded mean.\<close>

definition mean_rounded2 :: "MenuItem list \<Rightarrow> number" where
  "mean_rounded2 items = (if items = [] then Fin 0 else fl (rounded2 (exact_mean items)))"

text \<open>The double-precision computation of a mean is exact when no addition and not the
  division has to round: every running sum, from 0 and from left to right, is a double,
  and so is the quotient; the quotient is below \<open>10^21\<close>, where \<^verbatim>\<open>toFixed\<close> prints
  decimals.\<close>

definition is_double :: "rat \<Rightarrow> bool" where
  "is_double x = (fl x = Fin x)"

primrec sums_exact :: "rat \<Rightarrow> MenuItem list \<Rightarrow> bool" where
  "sums_exact s [] = True"
| "sums_exact s (i # rest) =
     (case price i of
        Fin v \<Rightarrow> is_double (s + v) \<and> sums_exact (s + v) rest
      | _ \<Rightarrow> False)"

definition mean_exact :: "MenuItem list \<Rightarrow> bool" where
  "mean_exact items =
     (sums_exact 0 items \<and> is_double (exact_mean items) \<and> \<bar>exact_mean items\<bar> < 10 ^ 21)"

text \<open>Two drinks, priced 1.00 and 1.01 through the add-item form: the second price is the
  double nearest to 1.01.\<close>

definition drinks :: "MenuItem list" where
  "drinks =
     [\<lparr>id' = ''4'', name = ''Tea'', course = ''Beverage'', addOn = '''', price = Fin 1\<rparr>,
      \<lparr>id' = ''5'', name = ''Juice'', course = ''Beverage'', addOn = '''',
        price = Fin (4548635623644201 / 4503599627370496)\<rparr>]"

section \<open>The add-item form (ChefScreen)\<close>

text \<open>The four \<^verbatim>\<open>useState\<close> cells of ChefScreen: \<^verbatim>\<open>name\<close>, \<^verbatim>\<open>course\<close>, \<^verbatim>\<open>addOn\<close>, \<^verbatim>\<open>price\<close>.\<close>

record ChefForm =
  form_name :: string
  form_course :: string
  form_addOn :: string
  form_price :: string

definition initial_form :: ChefForm where
  "initial_form =
     \<lparr>form_name = '''', form_course = COURSES ! 0, form_addOn = ADDONS ! 0, form_price = ''''\<rparr>"

text \<open>The state an add-item submission can touch: the stack and the store of \<^verbatim>\<open>App\<close>, and
  the form of the mounted ChefScreen.\<close>

record AppState =
  stack :: "Route list"
  menuItems :: "MenuItem list"
  form :: ChefForm

text \<open>\<^verbatim>\<open>Alert.alert(title, message, buttons)\<close>.  The only \<^verbatim>\<open>onPress\<close> handler that \<^verbatim>\<open>onAdd\<close>
  installs calls \<^verbatim>\<open>navigation.popToTop()\<close>.\<close>

datatype handler = CallPopToTop

record alert =
  title :: string
  message :: string
  buttons :: "(string \<times> handler) list"

definition newItem :: "nat \<Rightarrow> ChefForm \<Rightarrow> MenuItem" where
  "newItem now f =
     \<lparr>id' = toString_nat now,
      name = trim (form_name f),
      course = form_course f,
      addOn = (if form_addOn f = ''None'' then '''' else form_addOn f),
      price = parseFloat_toFixed2 (parseFloat (form_price f))\<rparr>"

text \<open>\<^verbatim>\<open>onAdd\<close>, with the value of \<^verbatim>\<open>Date.now()\<close> as \<open>now\<close>: the alert it shows and the
  state after it.  An empty string is falsy, so \<^verbatim>\<open>!name.trim()\<close> tests for the empty
  string.  \<^verbatim>\<open>App\<close> passes its \<^verbatim>\<open>addItem\<close> to the screen, so \<^verbatim>\<open>addItem && addItem(newItem)\<close>
  calls it.\<close>

definition onAdd :: "nat \<Rightarrow> AppState \<Rightarrow> alert \<times> AppState" where
  "onAdd now st =
     (if trim (form_name (form st)) = [] \<or> trim (form_price (form st)) = [] then
        (\<lparr>title = ''Validation'', message = ''Please enter a dish name and price.'',
          buttons = []\<rparr>, st)
      else if isNaN (parseFloat (form_price (form st)))
              \<or> num_less (parseFloat (form_price (form st))) (Fin 0) then
        (\<lparr>title = ''Validation'', message = ''Please enter a valid price.'', buttons = []\<rparr>, st)
      else
        (\<lparr>title = ''Success'', message = ''Menu item added.'',
          buttons = [(''OK'', CallPopToTop)]\<rparr>,
         st\<lparr>menuItems := addItem (newItem now (form st)) (menuItems st), form := initial_form\<rparr>))"

text \<open>Pressing a button of an alert runs its handler, if it has one.\<close>

definition press :: "alert \<Rightarrow> string \<Rightarrow> AppState \<Rightarrow> AppState" where
  "press a label st =
     (case map_of (buttons a) label of
        None \<Rightarrow> st
      | Some CallPopToTop \<Rightarrow> st\<lparr>stack := popToTop (stack st)\<rparr>)"

text \<open>A submission is rejected when the alert it shows is a validation alert.\<close>

definition rejected :: "nat \<Rightarrow> AppState \<Rightarrow> bool" where
  "rejected now st = (title (fst (onAdd now st)) = ''Validation'')"

text \<open>The condition of the specification, in its words: the price "parses as a
  non-negative finite decimal number", read with the program's own parser.\<close>

definition parses_as_nonneg_finite :: "string \<Rightarrow> bool" where
  "parses_as_nonneg_finite s = (case parseFloat s of Fin v \<Rightarrow> 0 \<le> v | _ \<Rightarrow> False)"

definition spec_rejects :: "AppState \<Rightarrow> bool" where
  "spec_rejects st =
     (trim (form_name (form st)) = [] \<or> trim (form_price (form st)) = []
      \<or> \<not> parses_as_nonneg_finite (form_price (form st)))"

section \<open>Navigation stack: proofs\<close>

lemma apply_nav_keeps_root:
  assumes "s \<noteq> []"
  shows "apply_nav s op \<noteq> [] \<and> apply_nav s op ! 0 = s ! 0"
proof (cases op)
  case (Navigate nm ps)
  with assms show ?thesis by (simp add: navigate_def nth_append)
next
  case GoBack
  show ?thesis
  proof (cases "length s > 1")
    case True
    then have "butlast s \<noteq> []" by (cases s) auto
    moreover from True have "butlast s ! 0 = s ! 0" by (simp add: nth_butlast)
    ultimately show ?thesis using GoBack True by (simp add: goBack_def)
  next
    case False
    with assms GoBack show ?thesis by (simp add: goBack_def)
  qed
next
  case PopToTop
  with assms show ?thesis by (simp add: popToTop_def)
qed

lemma foldl_apply_nav_keeps_root:
  "s \<noteq> [] \<Longrightarrow> foldl apply_nav s ops \<noteq> [] \<and> foldl apply_nav s ops ! 0 = s ! 0"
proof (induction ops arbitrary: s)
  case Nil
  then show ?case by simp
next
  case (Cons op ops)
  from apply_nav_keeps_root [OF Cons.prems, of op]
  have step: "apply_nav s op \<noteq> []" "apply_nav s op ! 0 = s ! 0" by simp_all
  from Cons.IH [OF step(1)] step(2) show ?case by simp
qed

text \<open>
  C3.  Whatever sequence of \<open>navigate\<close>, \<open>goBack\<close> and \<open>popToTop\<close> calls is applied to the
  initial stack \<open>[{name: 'Home', params: {}}]\<close>, the resulting stack has at least one
  frame and its first frame is the root: Home, with no item in its params.
\<close>

theorem stack_root_invariant:
  "length (run_nav ops) \<ge> 1 \<and> run_nav ops ! 0 = \<lparr>route_name = ''Home'', params = \<lparr>item = None\<rparr>\<rparr>"
proof -
  have ne: "initial_stack \<noteq> []"
    by (simp add: initial_stack_def useSimpleStack_def)
  have root: "initial_stack ! 0 = \<lparr>route_name = ''Home'', params = \<lparr>item = None\<rparr>\<rparr>"
    by (simp add: initial_stack_def useSimpleStack_def home_route_def no_params_def)
  from foldl_apply_nav_keeps_root [OF ne, of ops] root
  have "run_nav ops \<noteq> []" "run_nav ops ! 0 = \<lparr>route_name = ''Home'', params = \<lparr>item = None\<rparr>\<rparr>"
    by (simp_all add: run_nav_def)
  then show ?thesis by (cases "run_nav ops") simp_all
qed

theorem stack_root_invariant_witness:
  "length (run_nav [Navigate ''Chef'' None, GoBack, GoBack, Navigate ''Payment'' None, PopToTop]) \<ge> 1
   \<and> run_nav [Navigate ''Chef'' None, GoBack, GoBack, Navigate ''Payment'' None, PopToTop] ! 0
       = \<lparr>route_name = ''Home'', params = \<lparr>item = None\<rparr>\<rparr>"
  using stack_root_invariant [of "[Navigate ''Chef'' None, GoBack, GoBack, Navigate ''Payment'' None, PopToTop]"]
  by simp

text \<open>
  C6.  \<open>goBack\<close> removes exactly the last frame when the stack has more than one frame (the
  stack before is the stack after followed by its old last frame), and changes nothing
  otherwise; so it changes the stack if and only if there was more than one frame, and on
  a stack of one frame a second \<open>goBack\<close> equals the first.  The updater only reads
  \<open>length\<close> and calls \<open>slice\<close>, neither of which can throw: it is a total function.
\<close>

theorem goBack_spec:
  "(length s > 1 \<longrightarrow> goBack s @ [last s] = s \<and> length (goBack s) = length s - 1)
   \<and> (\<not> length s > 1 \<longrightarrow> goBack s = s)
   \<and> (goBack s \<noteq> s \<longleftrightarrow> length s > 1)
   \<and> (length s = 1 \<longrightarrow> goBack (goBack s) = goBack s)"
proof -
  have a: "goBack s @ [last s] = s \<and> length (goBack s) = length s - 1" if "length s > 1"
  proof -
    from that have "s \<noteq> []" by auto
    then have "butlast s @ [last s] = s" by simp
    with that show ?thesis by (simp add: goBack_def)
  qed
  have b: "goBack s = s" if "\<not> length s > 1"
    using that by (simp add: goBack_def)
  have c: "goBack s \<noteq> s" if "length s > 1"
  proof
    assume "goBack s = s"
    with a [OF that] have "length s = length s - 1" by simp
    with that show False by simp
  qed
  from a b c show ?thesis by auto
qed

theorem goBack_spec_witness:
  "goBack [home_route, \<lparr>route_name = ''Chef'', params = no_params\<rparr>] @ [\<lparr>route_name = ''Chef'', params = no_params\<rparr>]
     = [home_route, \<lparr>route_name = ''Chef'', params = no_params\<rparr>]
   \<and> goBack [home_route] = [home_route]
   \<and> goBack (goBack [home_route]) = goBack [home_route]"
  using goBack_spec [of "[home_route, \<lparr>route_name = ''Chef'', params = no_params\<rparr>]"]
    goBack_spec [of "[home_route]"]
  by simp

section \<open>Menu store: proofs\<close>

text \<open>
  C5.  If no item of the store has the id of the new item (the precondition of
  \<open>addItem\<close>), then \<open>addItem\<close> followed by \<open>removeItem\<close> of that id gives back the store
  as it was: same items, same order.
\<close>

theorem add_remove_roundtrip:
  assumes "id' it \<notin> id' ` set store"
  shows "removeItem (id' it) (addItem it store) = store"
proof -
  from assms have "\<forall>x \<in> set store. id' x \<noteq> id' it" by (metis imageI)
  then have "filter (\<lambda>x. id' x \<noteq> id' it) store = store" by (simp add: filter_id_conv)
  then show ?thesis by (simp add: removeItem_def addItem_def)
qed

theorem add_remove_roundtrip_witness:
  "id' \<lparr>id' = ''3'', name = ''Pizza'', course = ''Main'', addOn = '''', price = Fin 100\<rparr> \<notin> id' ` set seed_items
   \<and> removeItem ''3'' (addItem \<lparr>id' = ''3'', name = ''Pizza'', course = ''Main'', addOn = '''', price = Fin 100\<rparr> seed_items)
       = seed_items"
proof -
  have h: "id' \<lparr>id' = ''3'', name = ''Pizza'', course = ''Main'', addOn = '''', price = Fin 100\<rparr> \<notin> id' ` set seed_items"
    by (simp add: seed_items_def)
  from add_remove_roundtrip [OF h] h show ?thesis by simp
qed

text \<open>
  C10.  In any store, also one where several items share an id, \<open>removeItem i\<close> leaves no
  item with id \<open>i\<close>, keeps every other item (with its multiplicity and in order), and a
  second \<open>removeItem i\<close> changes nothing more.
\<close>

theorem removeItem_removes_all:
  "(\<forall>x \<in> set (removeItem i store). id' x \<noteq> i)
   \<and> (\<forall>x. id' x \<noteq> i \<longrightarrow> count_list (removeItem i store) x = count_list store x)
   \<and> subseq (removeItem i store) store
   \<and> removeItem i (removeItem i store) = removeItem i store"
proof -
  have "count_list (filter (\<lambda>y. id' y \<noteq> i) store) x = count_list store x" if "id' x \<noteq> i" for x
    using that by (induction store) auto
  then show ?thesis by (simp add: removeItem_def)
qed

theorem removeItem_removes_all_witness:
  "removeItem ''7''
     [\<lparr>id' = ''7'', name = ''Soup'', course = ''Starter'', addOn = '''', price = Fin 45\<rparr>,
      \<lparr>id' = ''2'', name = ''Steak'', course = ''Main'', addOn = ''Fries'', price = Fin 220\<rparr>,
      \<lparr>id' = ''7'', name = ''Cake'', course = ''Dessert'', addOn = '''', price = Fin 60\<rparr>]
   = [\<lparr>id' = ''2'', name = ''Steak'', course = ''Main'', addOn = ''Fries'', price = Fin 220\<rparr>]
   \<and> removeItem ''7'' (removeItem ''7''
     [\<lparr>id' = ''7'', name = ''Soup'', course = ''Starter'', addOn = '''', price = Fin 45\<rparr>,
      \<lparr>id' = ''2'', name = ''Steak'', course = ''Main'', addOn = ''Fries'', price = Fin 220\<rparr>,
      \<lparr>id' = ''7'', name = ''Cake'', course = ''Dessert'', addOn = '''', price = Fin 60\<rparr>])
   = [\<lparr>id' = ''2'', name = ''Steak'', course = ''Main'', addOn = ''Fries'', price = Fin 220\<rparr>]"
  using removeItem_removes_all [of "''7''"
     "[\<lparr>id' = ''7'', name = ''Soup'', course = ''Starter'', addOn = '''', price = Fin 45\<rparr>,
      \<lparr>id' = ''2'', name = ''Steak'', course = ''Main'', addOn = ''Fries'', price = Fin 220\<rparr>,
      \<lparr>id' = ''7'', name = ''Cake'', course = ''Dessert'', addOn = '''', price = Fin 60\<rparr>]"]
  by (simp add: removeItem_def)

section \<open>Course filter: proofs\<close>

text \<open>
  C8.  With the selection \<open>All\<close> the filter returns the item collection itself.  With one
  of the four courses it returns the items whose \<open>course\<close> field equals that course and
  nothing else, each as often as in the input and in the input's order.  HomeScreen and
  GuestFilterScreen compute the same list.
\<close>

theorem filter_by_course:
  "filtered (Some items) ''All'' = items
   \<and> displayed (Some items) flt = filtered (Some items) flt
   \<and> (c \<in> set COURSES \<longrightarrow>
        filtered (Some items) c = [it \<leftarrow> items. course it = c]
        \<and> set (filtered (Some items) c) = {it \<in> set items. course it = c}
        \<and> (\<forall>x. course x = c \<longrightarrow> count_list (filtered (Some items) c) x = count_list items x)
        \<and> subseq (filtered (Some items) c) items)"
proof -
  have all: "filtered (Some items) ''All'' = items"
    by (simp add: filtered_def or_empty_def)
  have same: "displayed (Some items) flt = filtered (Some items) flt"
    by (simp add: filtered_def displayed_def)
  have cnt: "count_list [it \<leftarrow> items. course it = c] x = count_list items x" if "course x = c" for x
    using that by (induction items) auto
  have "filtered (Some items) c = [it \<leftarrow> items. course it = c]" if "c \<in> set COURSES"
    using that by (auto simp: filtered_def or_empty_def COURSES_def)
  with all same cnt show ?thesis by auto
qed

theorem filter_by_course_witness:
  "filtered (Some seed_items) ''All'' = seed_items
   \<and> ''Main'' \<in> set COURSES
   \<and> filtered (Some seed_items) ''Main''
       = [\<lparr>id' = ''2'', name = ''Grilled Steak'', course = ''Main'', addOn = ''Fries'', price = Fin 220\<rparr>]
   \<and> subseq (filtered (Some seed_items) ''Main'') seed_items"
proof -
  have h: "''Main'' \<in> set COURSES" by (simp add: COURSES_def)
  have "[it \<leftarrow> seed_items. course it = ''Main'']
       = [\<lparr>id' = ''2'', name = ''Grilled Steak'', course = ''Main'', addOn = ''Fries'', price = Fin 220\<rparr>]"
    by (simp add: seed_items_def)
  moreover from filter_by_course [of seed_items "''Main''" "''Main''"] h
  have "filtered (Some seed_items) ''All'' = seed_items"
    and "filtered (Some seed_items) ''Main'' = [it \<leftarrow> seed_items. course it = ''Main'']"
    and "subseq (filtered (Some seed_items) ''Main'') seed_items"
    by blast+
  ultimately show ?thesis using h by simp
qed

section \<open>Screen dispatcher: proofs\<close>

lemma current_snoc: "current (prev @ [cur]) = Some cur"
  by (simp add: current_def)

text \<open>
  C9.  Rendering never throws on a stack that has a current frame, and every stack
  reached from the initial one has one.  The dispatcher answers a \<open>SelectedCourse\<close> or
  \<open>Payment\<close> frame that carries no item with a screen holding the text
  "No item selected." or "Error: Missing item for payment.", and a frame whose name is
  none of the five screens with the text "Unknown screen: " and the name.  On a stack
  whose top frame is such a frame, \<open>goBack\<close> returns to the stack below and \<open>popToTop\<close>
  to the root, as from any other frame (the two placeholders of the item screens and the
  unknown-screen view hold their text only; the operations are those of the navigation
  object).
\<close>

theorem renderScreen_total:
  "App (prev @ [cur]) items = Inr (renderScreen cur items)
   \<and> (\<exists>v. App (run_nav ops) items = Inr v)
   \<and> (route_name cur = ''SelectedCourse'' \<and> item (params cur) = None \<longrightarrow>
        renderScreen cur items = TextOnly ''No item selected.'')
   \<and> (route_name cur = ''Payment'' \<and> item (params cur) = None \<longrightarrow>
        renderScreen cur items = TextOnly ''Error: Missing item for payment.'')
   \<and> (route_name cur \<notin> {''Home'', ''Chef'', ''GuestFilter'', ''SelectedCourse'', ''Payment''} \<longrightarrow>
        renderScreen cur items = TextOnly (''Unknown screen: '' @ route_name cur))
   \<and> (prev \<noteq> [] \<longrightarrow> goBack (prev @ [cur]) = prev \<and> popToTop (prev @ [cur]) = [prev ! 0])"
proof -
  have a: "App (prev @ [cur]) items = Inr (renderScreen cur items)"
    by (simp add: App_def current_snoc)
  have "initial_stack \<noteq> []"
    by (simp add: initial_stack_def useSimpleStack_def)
  from foldl_apply_nav_keeps_root [OF this, of ops] have "run_nav ops \<noteq> []"
    by (simp add: run_nav_def)
  then have b: "\<exists>v. App (run_nav ops) items = Inr v"
    by (simp add: App_def current_def)
  have c: "renderScreen cur items = TextOnly ''No item selected.''"
    if "route_name cur = ''SelectedCourse''" "item (params cur) = None"
    using that by (simp add: renderScreen_def SelectedCourseScreen_def)
  have d: "renderScreen cur items = TextOnly ''Error: Missing item for payment.''"
    if "route_name cur = ''Payment''" "item (params cur) = None"
    using that by (simp add: renderScreen_def PaymentScreen_def)
  have e: "renderScreen cur items = TextOnly (''Unknown screen: '' @ route_name cur)"
    if "route_name cur \<notin> {''Home'', ''Chef'', ''GuestFilter'', ''SelectedCourse'', ''Payment''}"
    using that by (simp add: renderScreen_def)
  have f: "goBack (prev @ [cur]) = prev \<and> popToTop (prev @ [cur]) = [prev ! 0]" if "prev \<noteq> []"
    using that by (cases prev) (simp_all add: goBack_def popToTop_def)
  from a b c d e f show ?thesis by blast
qed

theorem renderScreen_total_witness:
  "App (navigate ''SelectedCourse'' None initial_stack) seed_items = Inr (TextOnly ''No item selected.'')
   \<and> App (navigate ''Payment'' None initial_stack) seed_items
       = Inr (TextOnly ''Error: Missing item for payment.'')
   \<and> App (navigate ''Unknown'' None initial_stack) seed_items = Inr (TextOnly ''Unknown screen: Unknown'')
   \<and> goBack (navigate ''SelectedCourse'' None initial_stack) = initial_stack
   \<and> popToTop (navigate ''Payment'' None initial_stack) = initial_stack"
  using
    renderScreen_total [of "[home_route]" "\<lparr>route_name = ''SelectedCourse'', params = no_params\<rparr>" seed_items "[]"]
    renderScreen_total [of "[home_route]" "\<lparr>route_name = ''Payment'', params = no_params\<rparr>" seed_items "[]"]
    renderScreen_total [of "[home_route]" "\<lparr>route_name = ''Unknown'', params = no_params\<rparr>" seed_items "[]"]
  by (simp add: navigate_def initial_stack_def useSimpleStack_def no_params_def)

section \<open>The rounding to a double\<close>

text \<open>What makes \<open>nearest_double\<close> the rounding of IEEE-754: \<open>ilog2\<close> is the binary
  exponent, the significand has at most 53 bits, and the result is within half a unit in
  the last place of the argument.\<close>

lemma pow2_pos: "0 < pow2 q"
  by (simp add: pow2_def)

lemma round_half_even_near: "\<bar>of_int (round_half_even r) - r\<bar> \<le> 1 / 2"
proof -
  define f :: rat where "f = of_int \<lfloor>r\<rfloor>"
  have "f \<le> r" "r < f + 1" unfolding f_def by linarith+
  then show ?thesis
    unfolding round_half_even_def f_def [symmetric]
    by (auto simp: f_def [symmetric] abs_le_iff)
qed

lemma pow2_Suc: "pow2 (1 + e) = 2 * pow2 e" if "0 \<le> e"
  using that by (simp add: pow2_def nat_add_distrib)

lemma pow2_pred: "2 * pow2 (e - 1) = pow2 e"
proof (cases "0 < e")
  case True
  then have "nat e = Suc (nat (e - 1))" by simp
  with True show ?thesis by (simp add: pow2_def)
next
  case False
  then have "nat (1 - e) = Suc (nat (- e))" by simp
  with False show ?thesis by (simp add: pow2_def)
qed

lemma log2_up_bounds:
  "1 \<le> a \<Longrightarrow> 0 \<le> log2_up a \<and> pow2 (log2_up a) \<le> a \<and> a < 2 * pow2 (log2_up a)"
proof (induction a rule: log2_up.induct)
  case (1 a)
  show ?case
  proof (cases "a < 2")
    case True
    with 1 show ?thesis by (simp add: log2_up.simps [of a] pow2_def)
  next
    case False
    then have "1 \<le> a / 2" by simp
    with 1 False have ih: "0 \<le> log2_up (a / 2)" "pow2 (log2_up (a / 2)) \<le> a / 2"
      "a / 2 < 2 * pow2 (log2_up (a / 2))" by simp_all
    from False have eq: "log2_up a = 1 + log2_up (a / 2)" by (simp add: log2_up.simps [of a])
    from ih show ?thesis unfolding eq by (simp add: pow2_Suc)
  qed
qed

lemma log2_down_bounds:
  "0 < a \<Longrightarrow> a < 1 \<Longrightarrow> pow2 (log2_down a) \<le> a \<and> a < 2 * pow2 (log2_down a)"
proof (induction a rule: log2_down.induct)
  case (1 a)
  from 1 have eq: "log2_down a = log2_down (2 * a) - 1" by (simp add: log2_down.simps [of a])
  show ?case
  proof (cases "2 * a < 1")
    case True
    with 1 have "pow2 (log2_down (2 * a)) \<le> 2 * a \<and> 2 * a < 2 * pow2 (log2_down (2 * a))" by simp
    then show ?thesis unfolding eq using pow2_pred [of "log2_down (2 * a)"] by simp
  next
    case False
    then have "log2_down (2 * a) = 0" by (simp add: log2_down.simps [of "2 * a"])
    with False 1 show ?thesis unfolding eq by (simp add: pow2_def)
  qed
qed

lemma ilog2_bounds: "0 < a \<Longrightarrow> pow2 (ilog2 a) \<le> a \<and> a < 2 * pow2 (ilog2 a)"
  using log2_up_bounds [of a] log2_down_bounds [of a] by (simp add: ilog2_def)

lemma pow2_powi: "pow2 q = 2 powi q"
  by (simp add: pow2_def power_int_def power_one_over [symmetric] del: power_one_over)

lemma significand_bound:
  assumes "0 < a"
  shows "0 \<le> round_half_even (a / pow2 (max (ilog2 a - 52) (- 1074)))
       \<and> round_half_even (a / pow2 (max (ilog2 a - 52) (- 1074))) \<le> 2 ^ 53"
proof -
  define q where "q = max (ilog2 a - 52) (- 1074)"
  define r where "r = a / pow2 q"
  have q: "0 < pow2 q" by (rule pow2_pos)
  with assms have r0: "0 < r" by (simp add: r_def)
  have "ilog2 a + 1 \<le> q + 53" by (simp add: q_def)
  then have "(2::rat) powi (ilog2 a + 1) \<le> 2 powi (q + 53)"
    by (intro power_int_increasing) simp_all
  also have "\<dots> = 2 ^ 53 * pow2 q"
    by (simp add: power_int_add pow2_powi)
  finally have le: "(2::rat) powi (ilog2 a + 1) \<le> 2 ^ 53 * pow2 q" .
  have "2 * pow2 (ilog2 a) = 2 powi (ilog2 a + 1)"
    by (simp add: power_int_add pow2_powi)
  with ilog2_bounds [OF assms] le have "a < 2 ^ 53 * pow2 q" by simp
  with q have r53: "r < 2 ^ 53" by (simp add: r_def pos_divide_less_eq)
  from round_half_even_near [of r] have
    "of_int (round_half_even r) \<le> r + 1 / 2" "r - 1 / 2 \<le> of_int (round_half_even r)"
    by linarith+
  with r0 r53 have "(of_int (- 1) :: rat) < of_int (round_half_even r)"
    "(of_int (round_half_even r) :: rat) < of_int (2 ^ 53 + 1)"
    by simp_all
  then have "- 1 < round_half_even r" "round_half_even r < 2 ^ 53 + 1"
    by (simp_all only: of_int_less_iff)
  then show ?thesis unfolding r_def q_def by simp
qed

lemma nearest_double_near:
  "\<bar>nearest_double a - a\<bar> \<le> pow2 (max (ilog2 a - 52) (- 1074)) / 2"
proof -
  define u where "u = pow2 (max (ilog2 a - 52) (- 1074))"
  define x :: rat where "x = of_int (round_half_even (a / u))"
  have u: "0 < u" unfolding u_def by (rule pow2_pos)
  from round_half_even_near [of "a / u"]
  have "\<bar>x - a / u\<bar> * u \<le> 1 / 2 * u"
    using u by (simp add: x_def)
  moreover have "\<bar>(x - a / u) * u\<bar> = \<bar>x - a / u\<bar> * u"
    using u by (simp add: abs_mult)
  moreover have "(x - a / u) * u = x * u - a"
    using u by (simp add: field_simps)
  ultimately have "\<bar>x * u - a\<bar> \<le> u / 2" by simp
  then show ?thesis
    by (simp add: nearest_double_def u_def [symmetric] x_def [symmetric])
qed

section \<open>Evaluating numbers and strings\<close>

lemma floor_rat_numeral_div:
  "\<lfloor>(numeral a :: rat) / numeral b\<rfloor> = numeral a div numeral b"
  using floor_divide_of_int_eq [of "numeral a" "numeral b", where ?'a = rat] by simp

lemma floor_one_half: "\<lfloor>(1::rat) / 2\<rfloor> = 0"
  by (simp add: floor_eq_iff)

lemmas fl_eval = fl_def nearest_double_def ilog2_def pow2_def round_half_even_def
  log2_up.simps log2_down.simps floor_rat_numeral_div floor_one_half

lemmas parse_eval = parseFloat_def strDecimalLiteral_def strUnsignedDecimalLiteral_def
  fractionDigits_def afterFraction_def exponentPart_def digits_value_def digit_value_def
  isDigit_def isWhiteSpace_def pow10_def num_neg_def

lemma fl_0: "fl 0 = Fin 0"
  by (simp add: fl_def)

lemma parseFloat_toFixed2_0: "parseFloat_toFixed2 (Fin 0) = Fin 0"
  by (simp add: parseFloat_toFixed2_def fl_def floor_one_half)

lemma parseFloat_Infinity: "parseFloat ''Infinity'' = PosInfinity"
  by (simp add: parse_eval)

lemma parseFloat_abc: "parseFloat ''abc'' = NaN"
  by (simp add: parse_eval)

lemma parseFloat_99_999: "parseFloat ''99.999'' = Fin (3518402024511111 / 35184372088832)"
  by (simp add: parse_eval fl_eval)

lemma toFixed2_99_999: "parseFloat_toFixed2 (Fin (3518402024511111 / 35184372088832)) = Fin 100"
  by (simp add: parseFloat_toFixed2_def fl_eval)

section \<open>Add-item form: proofs\<close>

lemma rejected_iff_guard:
  "rejected now st \<longleftrightarrow>
     trim (form_name (form st)) = [] \<or> trim (form_price (form st)) = []
     \<or> parseFloat (form_price (form st)) = NaN
     \<or> num_less (parseFloat (form_price (form st))) (Fin 0)"
  by (auto simp: rejected_def onAdd_def isNaN_def)

lemma onAdd_rejected_state: "rejected now st \<Longrightarrow> snd (onAdd now st) = st"
  by (auto simp: rejected_def onAdd_def split: if_splits)

lemma onAdd_accepted:
  "\<not> rejected now st \<Longrightarrow>
     onAdd now st =
       (\<lparr>title = ''Success'', message = ''Menu item added.'', buttons = [(''OK'', CallPopToTop)]\<rparr>,
        st\<lparr>menuItems := newItem now (form st) # menuItems st, form := initial_form\<rparr>)"
  by (auto simp: rejected_def onAdd_def addItem_def split: if_splits)

text \<open>
  C2, as the specification states it: a submission is rejected if and only if the name
  trimmed is empty, or the price trimmed is empty, or the price does not parse as a
  non-negative finite decimal number.  The price \<open>Infinity\<close> parses to the number
  \<open>+Infinity\<close>, which is neither NaN nor negative: the submission is accepted and the store
  gets an item, although the price is not a finite number.
\<close>

theorem infinity_price_accepted:
  "spec_rejects \<lparr>stack = navigate ''Chef'' None initial_stack, menuItems = seed_items,
       form = \<lparr>form_name = ''Pizza'', form_course = ''Main'', form_addOn = ''None'',
               form_price = ''Infinity''\<rparr>\<rparr>
   \<and> \<not> rejected 1730000000000 \<lparr>stack = navigate ''Chef'' None initial_stack, menuItems = seed_items,
       form = \<lparr>form_name = ''Pizza'', form_course = ''Main'', form_addOn = ''None'',
               form_price = ''Infinity''\<rparr>\<rparr>
   \<and> length (menuItems (snd (onAdd 1730000000000
       \<lparr>stack = navigate ''Chef'' None initial_stack, menuItems = seed_items,
        form = \<lparr>form_name = ''Pizza'', form_course = ''Main'', form_addOn = ''None'',
                form_price = ''Infinity''\<rparr>\<rparr>))) = 3"
  by (simp add: spec_rejects_def parses_as_nonneg_finite_def rejected_iff_guard onAdd_accepted
      parseFloat_Infinity trim_def isWhiteSpace_def seed_items_def)

text \<open>
  C2, amended.  A submission is rejected (a validation alert, with no handler behind its
  button, and the store, the stack and the form exactly as before) if and only if the name
  trimmed is empty, or the price trimmed is empty, or \<open>parseFloat\<close> of the price is NaN or
  is less than zero.  Every other submission puts a new item in front of the store.
\<close>

theorem onAdd_rejects_iff:
  "(rejected now st \<longleftrightarrow>
      trim (form_name (form st)) = [] \<or> trim (form_price (form st)) = []
      \<or> parseFloat (form_price (form st)) = NaN
      \<or> num_less (parseFloat (form_price (form st))) (Fin 0))
   \<and> (rejected now st \<longrightarrow>
        snd (onAdd now st) = st \<and> buttons (fst (onAdd now st)) = []
        \<and> press (fst (onAdd now st)) label st = st)
   \<and> (\<not> rejected now st \<longrightarrow>
        menuItems (snd (onAdd now st)) = newItem now (form st) # menuItems st)"
proof -
  have "snd (onAdd now st) = st \<and> buttons (fst (onAdd now st)) = []
        \<and> press (fst (onAdd now st)) label st = st" if "rejected now st"
    using that by (auto simp: rejected_def onAdd_def press_def split: if_splits)
  moreover have "menuItems (snd (onAdd now st)) = newItem now (form st) # menuItems st"
    if "\<not> rejected now st"
    using onAdd_accepted [OF that] by simp
  ultimately show ?thesis using rejected_iff_guard [of now st] by blast
qed

theorem onAdd_rejects_iff_witness:
  "rejected 1730000000000 \<lparr>stack = navigate ''Chef'' None initial_stack, menuItems = seed_items,
       form = \<lparr>form_name = '' Pizza '', form_course = ''Main'', form_addOn = ''None'',
               form_price = ''abc''\<rparr>\<rparr>
   \<and> snd (onAdd 1730000000000 \<lparr>stack = navigate ''Chef'' None initial_stack, menuItems = seed_items,
       form = \<lparr>form_name = '' Pizza '', form_course = ''Main'', form_addOn = ''None'',
               form_price = ''abc''\<rparr>\<rparr>)
     = \<lparr>stack = navigate ''Chef'' None initial_stack, menuItems = seed_items,
       form = \<lparr>form_name = '' Pizza '', form_course = ''Main'', form_addOn = ''None'',
               form_price = ''abc''\<rparr>\<rparr>"
  using onAdd_rejects_iff [of 1730000000000
      "\<lparr>stack = navigate ''Chef'' None initial_stack, menuItems = seed_items,
        form = \<lparr>form_name = '' Pizza '', form_course = ''Main'', form_addOn = ''None'',
                form_price = ''abc''\<rparr>\<rparr>" "''OK''"]
  by (simp add: parseFloat_abc)

lemma toFixed2_nearest_hundredth:
  fixes v :: rat
  shows "\<bar>of_int \<lfloor>100 * v + 1 / 2\<rfloor> / 100 - v\<bar> \<le> 1 / 200"
proof -
  define n :: rat where "n = of_int \<lfloor>100 * v + 1 / 2\<rfloor>"
  have "n \<le> 100 * v + 1 / 2" unfolding n_def by (rule of_int_floor_le)
  moreover have "100 * v + 1 / 2 < n + 1" unfolding n_def by linarith
  ultimately have "n / 100 - v \<le> 1 / 200" "- (n / 100 - v) \<le> 1 / 200" by linarith+
  then have "\<bar>n / 100 - v\<bar> \<le> 1 / 200" by (rule abs_leI)
  then show ?thesis by (simp only: n_def)
qed

lemma trim_parts:
  "\<exists>a b. s = a @ trim s @ b \<and> (\<forall>c \<in> set a \<union> set b. isWhiteSpace c)"
proof -
  define t where "t = dropWhile isWhiteSpace s"
  define u where "u = dropWhile isWhiteSpace (rev t)"
  have tr: "trim s = rev u" by (simp add: trim_def t_def u_def)
  have s: "s = takeWhile isWhiteSpace s @ t" by (simp add: t_def)
  have "rev t = takeWhile isWhiteSpace (rev t) @ u" by (simp add: u_def)
  then have "rev (rev t) = rev (takeWhile isWhiteSpace (rev t) @ u)" by (rule arg_cong)
  then have t: "t = trim s @ rev (takeWhile isWhiteSpace (rev t))" by (simp add: tr)
  have "\<forall>c \<in> set (takeWhile isWhiteSpace s) \<union> set (rev (takeWhile isWhiteSpace (rev t))). isWhiteSpace c"
    by (auto dest: set_takeWhileD)
  moreover from s t have "s = takeWhile isWhiteSpace s @ trim s @ rev (takeWhile isWhiteSpace (rev t))"
    by simp
  ultimately show ?thesis by blast
qed

lemma trim_ends:
  assumes "trim s \<noteq> []"
  shows "\<not> isWhiteSpace (hd (trim s)) \<and> \<not> isWhiteSpace (last (trim s))"
proof -
  define t where "t = dropWhile isWhiteSpace s"
  define u where "u = dropWhile isWhiteSpace (rev t)"
  have tr: "trim s = rev u" by (simp add: trim_def t_def u_def)
  with assms have u: "u \<noteq> []" by simp
  then have "\<not> isWhiteSpace (hd u)" unfolding u_def by (rule hd_dropWhile)
  with u tr have l: "\<not> isWhiteSpace (last (trim s))" by (simp add: last_rev)
  from u have "rev t \<noteq> []" by (auto simp: u_def)
  then have tne: "t \<noteq> []" by simp
  then have ht: "\<not> isWhiteSpace (hd t)" unfolding t_def by (rule hd_dropWhile)
  have "rev t = takeWhile isWhiteSpace (rev t) @ u" by (simp add: u_def)
  then have "rev (rev t) = rev (takeWhile isWhiteSpace (rev t) @ u)" by (rule arg_cong)
  then have "t = trim s @ rev (takeWhile isWhiteSpace (rev t))" by (simp add: tr)
  with assms have "hd t = hd (trim s)" by (metis hd_append2)
  with ht l show ?thesis by simp
qed

text \<open>
  C4, as the specification states it: the submission resets the navigation stack to the
  root.  On the form of the scenario (Pizza, 99.999, Main, None), submitted from the chef
  screen, the stack after \<open>onAdd\<close> still is Home below Chef: \<open>onAdd\<close> only installs
  \<open>popToTop\<close> as the handler of the alert's OK button.
\<close>

theorem onAdd_keeps_stack:
  "stack (snd (onAdd 1730000000000
     \<lparr>stack = run_nav [Navigate ''Chef'' None], menuItems = seed_items,
      form = \<lparr>form_name = ''Pizza'', form_course = ''Main'', form_addOn = ''None'',
              form_price = ''99.999''\<rparr>\<rparr>))
     = [\<lparr>route_name = ''Home'', params = \<lparr>item = None\<rparr>\<rparr>,
        \<lparr>route_name = ''Chef'', params = \<lparr>item = None\<rparr>\<rparr>]
   \<and> stack (snd (onAdd 1730000000000
     \<lparr>stack = run_nav [Navigate ''Chef'' None], menuItems = seed_items,
      form = \<lparr>form_name = ''Pizza'', form_course = ''Main'', form_addOn = ''None'',
              form_price = ''99.999''\<rparr>\<rparr>))
     \<noteq> [\<lparr>route_name = ''Home'', params = \<lparr>item = None\<rparr>\<rparr>]"
  by (simp add: onAdd_def run_nav_def initial_stack_def useSimpleStack_def navigate_def
      home_route_def no_params_def)

text \<open>
  C4, amended.  When the form passes validation, \<open>onAdd\<close> shows the success alert, puts in
  front of the store an item with the trimmed name (the input name without the white
  space at its two ends), the chosen course, the chosen add-on (the empty string for the
  choice \<open>None\<close>, and for no other choice of the picker) and the parsed price put through
  \<open>toFixed(2)\<close>, and resets the four form fields to their defaults.  For a parsed price \<open>v\<close>
  below \<open>10^21\<close> the stored price is the double nearest to \<open>n / 100\<close>, where \<open>n / 100\<close> is
  within half a hundredth of \<open>v\<close>.  The submission leaves the navigation stack as it was;
  pressing OK on the alert pops the stack to its first frame, which is the root for every
  stack reached from the initial one.
\<close>

theorem onAdd_success:
  assumes "trim (form_name (form st)) \<noteq> []"
    and "trim (form_price (form st)) \<noteq> []"
    and "parseFloat (form_price (form st)) \<noteq> NaN"
    and "\<not> num_less (parseFloat (form_price (form st))) (Fin 0)"
  shows "onAdd now st =
           (\<lparr>title = ''Success'', message = ''Menu item added.'', buttons = [(''OK'', CallPopToTop)]\<rparr>,
            st\<lparr>menuItems :=
                 \<lparr>id' = toString_nat now,
                  name = trim (form_name (form st)),
                  course = form_course (form st),
                  addOn = (if form_addOn (form st) = ''None'' then '''' else form_addOn (form st)),
                  price = parseFloat_toFixed2 (parseFloat (form_price (form st)))\<rparr> # menuItems st,
               form := \<lparr>form_name = '''', form_course = ''Starter'', form_addOn = ''Extra Sauce'',
                        form_price = ''''\<rparr>\<rparr>)
         \<and> (\<exists>a b. form_name (form st) = a @ name (newItem now (form st)) @ b
                \<and> (\<forall>c \<in> set a \<union> set b. isWhiteSpace c))
         \<and> \<not> isWhiteSpace (hd (name (newItem now (form st))))
         \<and> \<not> isWhiteSpace (last (name (newItem now (form st))))
         \<and> (form_addOn (form st) \<in> set ADDONS \<longrightarrow>
              (addOn (newItem now (form st)) = '''' \<longleftrightarrow> form_addOn (form st) = ''None''))
         \<and> (\<forall>v. parseFloat (form_price (form st)) = Fin v \<and> v < 10 ^ 21 \<longrightarrow>
              price (newItem now (form st)) = fl (of_int \<lfloor>100 * v + 1 / 2\<rfloor> / 100)
              \<and> \<bar>of_int \<lfloor>100 * v + 1 / 2\<rfloor> / 100 - v\<bar> \<le> 1 / 200)
         \<and> stack (snd (onAdd now st)) = stack st
         \<and> stack (press (fst (onAdd now st)) ''OK'' (snd (onAdd now st))) = popToTop (stack st)
         \<and> (stack st = run_nav ops \<longrightarrow>
              stack (press (fst (onAdd now st)) ''OK'' (snd (onAdd now st)))
                = [\<lparr>route_name = ''Home'', params = \<lparr>item = None\<rparr>\<rparr>])"
proof -
  from assms have acc: "\<not> rejected now st" by (simp add: rejected_iff_guard)
  have a: "onAdd now st =
           (\<lparr>title = ''Success'', message = ''Menu item added.'', buttons = [(''OK'', CallPopToTop)]\<rparr>,
            st\<lparr>menuItems :=
                 \<lparr>id' = toString_nat now,
                  name = trim (form_name (form st)),
                  course = form_course (form st),
                  addOn = (if form_addOn (form st) = ''None'' then '''' else form_addOn (form st)),
                  price = parseFloat_toFixed2 (parseFloat (form_price (form st)))\<rparr> # menuItems st,
               form := \<lparr>form_name = '''', form_course = ''Starter'', form_addOn = ''Extra Sauce'',
                        form_price = ''''\<rparr>\<rparr>)"
    using onAdd_accepted [OF acc]
    by (simp add: newItem_def initial_form_def COURSES_def ADDONS_def)
  have nm: "name (newItem now (form st)) = trim (form_name (form st))"
    by (simp add: newItem_def)
  have t1: "\<exists>a b. form_name (form st) = a @ name (newItem now (form st)) @ b
                \<and> (\<forall>c \<in> set a \<union> set b. isWhiteSpace c)"
    unfolding nm by (rule trim_parts)
  from trim_ends [OF assms(1)]
  have t2: "\<not> isWhiteSpace (hd (name (newItem now (form st))))"
    and t3: "\<not> isWhiteSpace (last (name (newItem now (form st))))"
    unfolding nm by simp_all
  have b: "form_addOn (form st) \<in> set ADDONS \<longrightarrow>
              (addOn (newItem now (form st)) = '''' \<longleftrightarrow> form_addOn (form st) = ''None'')"
    by (auto simp: newItem_def ADDONS_def)
  have c: "\<forall>v. parseFloat (form_price (form st)) = Fin v \<and> v < 10 ^ 21 \<longrightarrow>
              price (newItem now (form st)) = fl (of_int \<lfloor>100 * v + 1 / 2\<rfloor> / 100)
              \<and> \<bar>of_int \<lfloor>100 * v + 1 / 2\<rfloor> / 100 - v\<bar> \<le> 1 / 200"
  proof (intro allI impI)
    fix v
    assume v: "parseFloat (form_price (form st)) = Fin v \<and> v < 10 ^ 21"
    with assms(4) have "0 \<le> v" by simp
    with v have "parseFloat_toFixed2 (Fin v) = fl (of_int \<lfloor>100 * v + 1 / 2\<rfloor> / 100)"
      by (simp add: parseFloat_toFixed2_def)
    with v have "price (newItem now (form st)) = fl (of_int \<lfloor>100 * v + 1 / 2\<rfloor> / 100)"
      by (simp add: newItem_def)
    with toFixed2_nearest_hundredth [of v]
    show "price (newItem now (form st)) = fl (of_int \<lfloor>100 * v + 1 / 2\<rfloor> / 100)
          \<and> \<bar>of_int \<lfloor>100 * v + 1 / 2\<rfloor> / 100 - v\<bar> \<le> 1 / 200"
      by (rule_tac conjI)
  qed
  have k: "stack (snd (onAdd now st)) = stack st"
    by (simp add: onAdd_accepted [OF acc])
  have d: "stack (press (fst (onAdd now st)) ''OK'' (snd (onAdd now st))) = popToTop (stack st)"
    by (simp add: onAdd_accepted [OF acc] press_def)
  have "popToTop (run_nav ops) = [\<lparr>route_name = ''Home'', params = \<lparr>item = None\<rparr>\<rparr>]"
  proof -
    have "initial_stack \<noteq> []" by (simp add: initial_stack_def useSimpleStack_def)
    from foldl_apply_nav_keeps_root [OF this, of ops]
    have "run_nav ops \<noteq> []" "run_nav ops ! 0 = initial_stack ! 0" by (simp_all add: run_nav_def)
    then show ?thesis
      by (simp add: popToTop_def initial_stack_def useSimpleStack_def home_route_def no_params_def)
  qed
  with d have e: "stack st = run_nav ops \<longrightarrow>
              stack (press (fst (onAdd now st)) ''OK'' (snd (onAdd now st)))
                = [\<lparr>route_name = ''Home'', params = \<lparr>item = None\<rparr>\<rparr>]"
    by simp
  show ?thesis by (intro conjI a t1 t2 t3 b c k d e)
qed

lemma padded_pizza_passes:
  "trim ''  Pizza '' \<noteq> [] \<and> trim ''99.999'' \<noteq> []
   \<and> parseFloat ''99.999'' \<noteq> NaN \<and> \<not> num_less (parseFloat ''99.999'') (Fin 0)"
  by (simp add: trim_def isWhiteSpace_def parseFloat_99_999)

lemma toString_now: "toString_nat 1730000000000 = ''1730000000000''"
  by (simp add: toString_nat.simps)

theorem onAdd_success_witness:
  "onAdd 1730000000000
     \<lparr>stack = run_nav [Navigate ''Chef'' None], menuItems = seed_items,
      form = \<lparr>form_name = ''  Pizza '', form_course = ''Main'', form_addOn = ''None'',
              form_price = ''99.999''\<rparr>\<rparr>
   = (\<lparr>title = ''Success'', message = ''Menu item added.'', buttons = [(''OK'', CallPopToTop)]\<rparr>,
      \<lparr>stack = run_nav [Navigate ''Chef'' None],
       menuItems = \<lparr>id' = ''1730000000000'', name = ''Pizza'', course = ''Main'', addOn = '''',
                     price = Fin 100\<rparr> # seed_items,
       form = \<lparr>form_name = '''', form_course = ''Starter'', form_addOn = ''Extra Sauce'',
               form_price = ''''\<rparr>\<rparr>)
   \<and> stack (press (fst (onAdd 1730000000000
          \<lparr>stack = run_nav [Navigate ''Chef'' None], menuItems = seed_items,
           form = \<lparr>form_name = ''  Pizza '', form_course = ''Main'', form_addOn = ''None'',
                   form_price = ''99.999''\<rparr>\<rparr>)) ''OK''
        (snd (onAdd 1730000000000
          \<lparr>stack = run_nav [Navigate ''Chef'' None], menuItems = seed_items,
           form = \<lparr>form_name = ''  Pizza '', form_course = ''Main'', form_addOn = ''None'',
                   form_price = ''99.999''\<rparr>\<rparr>)))
     = [\<lparr>route_name = ''Home'', params = \<lparr>item = None\<rparr>\<rparr>]"
proof -
  let ?st = "\<lparr>stack = run_nav [Navigate ''Chef'' None], menuItems = seed_items,
      form = \<lparr>form_name = ''  Pizza '', form_course = ''Main'', form_addOn = ''None'',
              form_price = ''99.999''\<rparr>\<rparr>"
  from padded_pizza_passes have h:
    "trim (form_name (form ?st)) \<noteq> []" "trim (form_price (form ?st)) \<noteq> []"
    "parseFloat (form_price (form ?st)) \<noteq> NaN"
    "\<not> num_less (parseFloat (form_price (form ?st))) (Fin 0)"
    by simp_all
  have t: "trim ''  Pizza '' = ''Pizza''" by (simp add: trim_def isWhiteSpace_def)
  note w = onAdd_success [OF h, of 1730000000000 "[Navigate ''Chef'' None]"]
  from w have "onAdd 1730000000000 ?st =
          (\<lparr>title = ''Success'', message = ''Menu item added.'', buttons = [(''OK'', CallPopToTop)]\<rparr>,
           \<lparr>stack = run_nav [Navigate ''Chef'' None],
            menuItems = \<lparr>id' = ''1730000000000'', name = ''Pizza'', course = ''Main'', addOn = '''',
                     price = Fin 100\<rparr> # seed_items,
            form = \<lparr>form_name = '''', form_course = ''Starter'', form_addOn = ''Extra Sauce'',
               form_price = ''''\<rparr>\<rparr>)"
    by (simp add: t toString_now parseFloat_99_999 toFixed2_99_999)
  moreover from w have "stack ?st = run_nav [Navigate ''Chef'' None] \<longrightarrow>
      stack (press (fst (onAdd 1730000000000 ?st)) ''OK'' (snd (onAdd 1730000000000 ?st)))
        = [\<lparr>route_name = ''Home'', params = \<lparr>item = None\<rparr>\<rparr>]"
    by (elim conjE)
  then have "stack (press (fst (onAdd 1730000000000 ?st)) ''OK'' (snd (onAdd 1730000000000 ?st)))
     = [\<lparr>route_name = ''Home'', params = \<lparr>item = None\<rparr>\<rparr>]"
    by (simp only: AppState.simps simp_thms)
  ultimately show ?thesis by (rule conjI)
qed

section \<open>Averages: proofs\<close>

lemma rounded2_near: "\<bar>rounded2 x - x\<bar> \<le> 1 / 200"
proof (cases "x < 0")
  case True
  from toFixed2_nearest_hundredth [of "- x"]
  have "\<bar>- (of_int \<lfloor>100 * (- x) + 1 / 2\<rfloor> / 100) - x\<bar> \<le> 1 / 200"
    by (simp only: abs_le_iff) linarith
  with True show ?thesis by (simp only: rounded2_def if_True)
next
  case False
  with toFixed2_nearest_hundredth [of x] show ?thesis by (simp only: rounded2_def if_False)
qed

lemma parseFloat_toFixed2_rounded2:
  "\<bar>v\<bar> < 10 ^ 21 \<Longrightarrow> parseFloat_toFixed2 (Fin v) = fl (rounded2 v)"
  by (simp add: parseFloat_toFixed2_def rounded2_def)

lemma foldl_sums_exact:
  "sums_exact s xs \<Longrightarrow>
     foldl (\<lambda>s i. num_add s (price i)) (Fin s) xs
       = Fin (s + sum_list (map (\<lambda>i. fin_value (price i)) xs))"
proof (induction xs arbitrary: s)
  case Nil
  then show ?case by simp
next
  case (Cons i rest)
  from Cons.prems obtain v where v: "price i = Fin v" "is_double (s + v)" "sums_exact (s + v) rest"
    by (auto split: number.splits)
  from v(2) have "num_add (Fin s) (price i) = Fin (s + v)"
    by (simp add: v(1) is_double_def)
  with Cons.IH [OF v(3)] v(1) show ?case
    by (simp add: fin_value_def add.assoc)
qed

lemma mean_exact_average:
  assumes "mean_exact xs" and "xs \<noteq> []"
  shows "parseFloat_toFixed2 (num_div_length (sum_prices xs) (length xs)) = fl (rounded2 (exact_mean xs))"
proof -
  from assms(1) have ex: "sums_exact 0 xs" "is_double (exact_mean xs)" "\<bar>exact_mean xs\<bar> < 10 ^ 21"
    by (simp_all add: mean_exact_def)
  from foldl_sums_exact [OF ex(1)]
  have "sum_prices xs = Fin (sum_list (map (\<lambda>i. fin_value (price i)) xs))"
    by (simp add: sum_prices_def)
  with assms(2) have "num_div_length (sum_prices xs) (length xs) = fl (exact_mean xs)"
    by (simp add: exact_mean_def)
  with ex(2) have "num_div_length (sum_prices xs) (length xs) = Fin (exact_mean xs)"
    by (simp add: is_double_def)
  with ex(3) show ?thesis by (simp add: parseFloat_toFixed2_rounded2)
qed

text \<open>Whole numbers up to \<open>2^53\<close> are doubles: sums of whole prices are exact.\<close>

lemma round_half_even_of_int: "round_half_even (of_int j) = j"
  by (simp add: round_half_even_def)

lemma nearest_double_nat:
  assumes "0 < k" and "k \<le> 2 ^ 53"
  shows "nearest_double (of_int k) = of_int k"
proof -
  define a :: rat where "a = of_int k"
  define e where "e = ilog2 a"
  from assms have a1: "1 \<le> a" and a53: "a \<le> 2 ^ 53"
    unfolding a_def by (simp, metis of_int_le_iff of_int_numeral of_int_power)
  then have "0 < a" by simp
  from ilog2_bounds [OF this] have b: "2 powi e \<le> a" "a < 2 * 2 powi e"
    by (simp_all add: e_def pow2_powi)
  have e0: "0 \<le> e"
  proof (rule ccontr)
    assume "\<not> 0 \<le> e"
    then have "e \<le> - 1" by simp
    then have "(2::rat) powi e \<le> 2 powi (- 1)" by (intro power_int_increasing) simp_all
    with b(2) a1 show False by simp
  qed
  have e53: "e \<le> 53"
  proof (rule ccontr)
    assume "\<not> e \<le> 53"
    then have "54 \<le> e" by simp
    then have "(2::rat) powi 54 \<le> 2 powi e" by (intro power_int_increasing) simp_all
    with b(1) a53 show False by simp
  qed
  define q where "q = max (e - 52) (- 1074)"
  from e0 have qe: "q = e - 52" by (simp add: q_def)
  show ?thesis
  proof (cases "e \<le> 52")
    case True
    with qe have q0: "q \<le> 0" by simp
    then have p: "pow2 q = 1 / 2 ^ nat (- q)" by (cases "q = 0") (simp_all add: pow2_def)
    have "a / pow2 q = of_int (k * 2 ^ nat (- q))" by (simp add: p a_def)
    then have "round_half_even (a / pow2 q) = k * 2 ^ nat (- q)"
      by (simp only: round_half_even_of_int)
    then have "of_int (round_half_even (a / pow2 q)) * pow2 q = a"
      by (simp add: p a_def)
    then show ?thesis by (simp add: nearest_double_def a_def [symmetric] e_def [symmetric] q_def [symmetric])
  next
    case False
    with e53 have e: "e = 53" by simp
    with b(1) a53 have "a = 2 ^ 53" by simp
    with e qe have "a / pow2 q = of_int (2 ^ 52)" by (simp add: pow2_def)
    then have "round_half_even (a / pow2 q) = 2 ^ 52"
      by (simp only: round_half_even_of_int)
    with e qe \<open>a = 2 ^ 53\<close> have "of_int (round_half_even (a / pow2 q)) * pow2 q = a"
      by (simp add: pow2_def)
    then show ?thesis by (simp add: nearest_double_def a_def [symmetric] e_def [symmetric] q_def [symmetric])
  qed
qed

lemma is_double_int:
  assumes "\<bar>k\<bar> \<le> 2 ^ 53"
  shows "is_double (of_int k)"
proof (cases "k = 0")
  case True
  then show ?thesis by (simp add: is_double_def fl_def)
next
  case False
  with assms have k: "0 < \<bar>k\<bar>" "\<bar>k\<bar> \<le> 2 ^ 53" by simp_all
  from nearest_double_nat [OF k] have n: "nearest_double \<bar>of_int k\<bar> = \<bar>of_int k\<bar>" by simp
  from k(2) have "\<bar>of_int k :: rat\<bar> \<le> 2 ^ 53"
    by (metis of_int_abs of_int_le_iff of_int_numeral of_int_power)
  then have "\<not> (2 ^ 1024 \<le> \<bar>of_int k :: rat\<bar>)" by simp
  moreover have "(if 0 < (of_int k :: rat) then \<bar>of_int k\<bar> else - \<bar>of_int k\<bar>) = (of_int k :: rat)"
    by simp
  ultimately show ?thesis using False n by (simp only: is_double_def fl_def of_int_eq_0_iff if_False)
qed

lemma is_double_45: "is_double 45"
  using is_double_int [of 45] by simp

lemma is_double_265: "is_double 265"
  using is_double_int [of 265] by simp

lemma is_double_132_5: "is_double (265 / 2)"
  by (simp add: is_double_def fl_eval)

lemma fl_45: "fl 45 = Fin 45"
  using is_double_45 by (simp add: is_double_def)

lemma fl_220: "fl 220 = Fin 220"
  using is_double_int [of 220] by (simp add: is_double_def)

lemma fl_265: "fl 265 = Fin 265"
  using is_double_265 by (simp add: is_double_def)

lemma fl_132_5: "fl (265 / 2) = Fin (265 / 2)"
  using is_double_132_5 by (simp add: is_double_def)

text \<open>The prices 1 and 1.01, as the form stores them, in double precision: the sum 2.01
  is rounded down, its half lies just below 1.005, and \<open>toFixed(2)\<close> prints 1.00.  The
  exact mean of the two stored prices lies just above 1.005.\<close>

lemma price_1_01: "parseFloat_toFixed2 (parseFloat ''1.01'') = Fin (4548635623644201 / 4503599627370496)"
  by (simp add: parse_eval parseFloat_toFixed2_def fl_eval)

lemma fl_1_01: "fl (101 / 100) = Fin (4548635623644201 / 4503599627370496)"
  by (simp add: fl_eval)

lemma sum_drinks: "sum_prices drinks = Fin (1131529406376837 / 562949953421312)"
  by (simp add: sum_prices_def drinks_def fl_eval)

lemma half_sum_drinks:
  "fl (1131529406376837 / 1125899906842624) = Fin (1131529406376837 / 1125899906842624)"
  by (simp add: fl_eval)

lemma toFixed2_half_sum_drinks:
  "parseFloat_toFixed2 (Fin (1131529406376837 / 1125899906842624)) = Fin 1"
  by (simp add: parseFloat_toFixed2_def fl_eval)

lemma exact_mean_drinks: "exact_mean drinks = 9052235251014697 / 9007199254740992"
  by (simp add: exact_mean_def drinks_def fin_value_def)

lemma rounded2_mean_drinks: "rounded2 (9052235251014697 / 9007199254740992) = 101 / 100"
  by (simp add: rounded2_def floor_rat_numeral_div)

lemma mean_rounded2_drinks: "mean_rounded2 drinks = Fin (4548635623644201 / 4503599627370496)"
  by (simp add: mean_rounded2_def exact_mean_drinks rounded2_mean_drinks fl_1_01) (simp add: drinks_def)

lemma overallAverage_drinks: "overallAverage drinks = Fin 1"
  by (simp add: overallAverage_def sum_drinks) (simp add: drinks_def half_sum_drinks toFixed2_half_sum_drinks)

text \<open>
  C7, as the specification states it: the overall average is the arithmetic mean of the
  prices rounded to 2 decimals.  For the two drinks priced 1.00 and 1.01 the mean of the
  stored prices is nearer to 1.01 than to 1.00, and rounds to 1.01; \<open>overallAverage\<close>
  returns 1.00.
\<close>

theorem overallAverage_not_rounded_mean:
  "overallAverage drinks = Fin 1
   \<and> mean_rounded2 drinks = Fin (4548635623644201 / 4503599627370496)
   \<and> parseFloat_toFixed2 (parseFloat ''1.01'') = Fin (4548635623644201 / 4503599627370496)
   \<and> \<bar>101 / 100 - exact_mean drinks\<bar> < \<bar>1 - exact_mean drinks\<bar>
   \<and> overallAverage drinks \<noteq> mean_rounded2 drinks"
  by (simp add: overallAverage_drinks mean_rounded2_drinks price_1_01 exact_mean_drinks)

text \<open>
  C7, amended.  \<open>overallAverage\<close> returns 0 for the empty collection, with no division.
  For a non-empty collection it returns the double-precision quotient of the
  double-precision sum of the prices, added from left to right, by the number of items,
  put through \<open>toFixed(2)\<close>.  Whenever that computation is exact (every running sum and the
  quotient are doubles, the quotient below \<open>10^21\<close>), this is the arithmetic mean of the
  prices rounded to 2 decimals: the double nearest to a multiple of \<open>1/100\<close> that lies
  within half a hundredth of the mean.
\<close>

theorem overallAverage_mean:
  "overallAverage [] = Fin 0
   \<and> (items \<noteq> [] \<longrightarrow>
        overallAverage items
          = parseFloat_toFixed2 (num_div_length (sum_prices items) (length items)))
   \<and> (items \<noteq> [] \<and> mean_exact items \<longrightarrow>
        overallAverage items = fl (rounded2 (exact_mean items))
        \<and> overallAverage items = mean_rounded2 items
        \<and> \<bar>rounded2 (exact_mean items) - exact_mean items\<bar> \<le> 1 / 200)"
proof -
  have a: "overallAverage [] = Fin 0" by (simp add: overallAverage_def)
  have b: "items \<noteq> [] \<longrightarrow>
        overallAverage items
          = parseFloat_toFixed2 (num_div_length (sum_prices items) (length items))"
    by (simp add: overallAverage_def)
  have c: "items \<noteq> [] \<and> mean_exact items \<longrightarrow>
        overallAverage items = fl (rounded2 (exact_mean items))
        \<and> overallAverage items = mean_rounded2 items
        \<and> \<bar>rounded2 (exact_mean items) - exact_mean items\<bar> \<le> 1 / 200"
  proof
    assume h: "items \<noteq> [] \<and> mean_exact items"
    then have "overallAverage items = fl (rounded2 (exact_mean items))"
      using mean_exact_average [of items] by (simp add: overallAverage_def)
    with h rounded2_near [of "exact_mean items"]
    show "overallAverage items = fl (rounded2 (exact_mean items))
        \<and> overallAverage items = mean_rounded2 items
        \<and> \<bar>rounded2 (exact_mean items) - exact_mean items\<bar> \<le> 1 / 200"
      by (simp add: mean_rounded2_def)
  qed
  show ?thesis by (intro conjI a b c)
qed

lemma mean_exact_seed: "mean_exact seed_items \<and> exact_mean seed_items = 265 / 2"
  by (simp add: mean_exact_def exact_mean_def seed_items_def fin_value_def
      is_double_45 is_double_265 is_double_132_5)

lemma rounded2_132_5: "rounded2 (265 / 2) = 265 / 2"
  by (simp add: rounded2_def floor_rat_numeral_div)

theorem overallAverage_mean_witness:
  "seed_items \<noteq> [] \<and> mean_exact seed_items \<and> overallAverage seed_items = Fin (265 / 2)"
proof -
  have ne: "seed_items \<noteq> []" by (simp add: seed_items_def)
  from mean_exact_seed have me: "mean_exact seed_items" by simp
  from overallAverage_mean [of seed_items] ne me
  have "overallAverage seed_items = fl (rounded2 (exact_mean seed_items))" by blast
  then have "overallAverage seed_items = Fin (265 / 2)"
    by (simp add: mean_exact_seed rounded2_132_5 fl_132_5)
  with ne me show ?thesis by simp
qed

lemma computeAverages_map: "computeAverages items = map (course_entry items) COURSES"
  by (simp add: computeAverages_def COURSES_def)

lemma count_course_entry: "count (course_entry items c) = length [it \<leftarrow> items. course it = c]"
  by (simp add: course_entry_def Let_def)

lemma average_course_entry:
  "average (course_entry items c) =
     (if [it \<leftarrow> items. course it = c] = [] then Fin 0
      else parseFloat_toFixed2
             (num_div_length (sum_prices [it \<leftarrow> items. course it = c])
                (length [it \<leftarrow> items. course it = c])))"
  by (simp add: course_entry_def Let_def parseFloat_toFixed2_0)

lemma average_course_entry_exact:
  assumes "mean_exact [it \<leftarrow> items. course it = c]"
  shows "average (course_entry items c) = mean_rounded2 [it \<leftarrow> items. course it = c]"
proof (cases "[it \<leftarrow> items. course it = c] = []")
  case True
  then show ?thesis by (simp add: average_course_entry mean_rounded2_def)
next
  case False
  with mean_exact_average [OF assms False] show ?thesis
    by (simp add: average_course_entry mean_rounded2_def)
qed

lemma sum_counts:
  "sum_list (map count (computeAverages items)) = length [it \<leftarrow> items. course it \<in> set COURSES]"
  by (induction items) (auto simp: computeAverages_map count_course_entry COURSES_def)

text \<open>
  C1, as the specification states it, for items whose course is any string: the four
  counts add up to the length of the collection, and each average is the arithmetic mean
  of the matching prices rounded to 2 decimals.  With a broth of course \<open>Soup\<close> in front
  of the two drinks, no entry counts the broth, so the counts add up to 2 for 3 items; and
  the Beverage entry has the average 1.00, where the mean of the two prices rounds to
  1.01.
\<close>

theorem averages_counterexample:
  "sum_list (map count (computeAverages
      (\<lparr>id' = ''3'', name = ''Broth'', course = ''Soup'', addOn = '''', price = Fin 30\<rparr> # drinks)))
     \<noteq> length (\<lparr>id' = ''3'', name = ''Broth'', course = ''Soup'', addOn = '''', price = Fin 30\<rparr> # drinks)
   \<and> computeAverages
        (\<lparr>id' = ''3'', name = ''Broth'', course = ''Soup'', addOn = '''', price = Fin 30\<rparr> # drinks) ! 3
       = \<lparr>ca_course = ''Beverage'', average = Fin 1, count = 2\<rparr>
   \<and> mean_rounded2 [it \<leftarrow> \<lparr>id' = ''3'', name = ''Broth'', course = ''Soup'', addOn = '''',
                               price = Fin 30\<rparr> # drinks. course it = ''Beverage'']
       = Fin (4548635623644201 / 4503599627370496)"
proof -
  let ?xs = "\<lparr>id' = ''3'', name = ''Broth'', course = ''Soup'', addOn = '''', price = Fin 30\<rparr> # drinks"
  have f: "[it \<leftarrow> ?xs. course it = ''Beverage''] = drinks"
    by (simp add: drinks_def)
  have a: "sum_list (map count (computeAverages ?xs)) \<noteq> length ?xs"
    by (simp add: sum_counts COURSES_def drinks_def)
  have "computeAverages ?xs ! 3 = course_entry ?xs ''Beverage''"
    by (simp add: computeAverages_map COURSES_def)
  also have "\<dots> = \<lparr>ca_course = ''Beverage'', average = overallAverage drinks, count = 2\<rparr>"
    unfolding course_entry_def Let_def f by (simp add: overallAverage_def) (simp add: drinks_def)
  finally have b: "computeAverages ?xs ! 3 = \<lparr>ca_course = ''Beverage'', average = Fin 1, count = 2\<rparr>"
    by (simp only: overallAverage_drinks)
  from a b show ?thesis by (simp only: f mean_rounded2_drinks simp_thms)
qed

text \<open>
  C1, amended.  For every item collection, with any strings as courses,
  \<open>computeAverages\<close> returns four entries, for Starter, Main, Dessert and Beverage in this
  order.  The count of an entry is the number of items whose course equals the entry's
  course.  Its average is 0 when no item matches; otherwise it is the double-precision sum
  of the matching prices, added from left to right, divided by the count and put through
  \<open>toFixed(2)\<close>, which is the arithmetic mean of the matching prices rounded to 2 decimals
  whenever that computation is exact.  The four counts add up to the number of items
  whose course is one of the four courses; they add up to the length of the collection if
  and only if every item has one of the four courses.
\<close>

theorem averages_by_course:
  "length (computeAverages items) = 4
   \<and> map ca_course (computeAverages items) = [''Starter'', ''Main'', ''Dessert'', ''Beverage'']
   \<and> (\<forall>e \<in> set (computeAverages items).
        count e = length [it \<leftarrow> items. course it = ca_course e]
        \<and> average e =
            (if count e = 0 then Fin 0
             else parseFloat_toFixed2
                    (num_div_length (sum_prices [it \<leftarrow> items. course it = ca_course e]) (count e)))
        \<and> (mean_exact [it \<leftarrow> items. course it = ca_course e] \<longrightarrow>
             average e = mean_rounded2 [it \<leftarrow> items. course it = ca_course e]))
   \<and> sum_list (map count (computeAverages items)) = length [it \<leftarrow> items. course it \<in> set COURSES]
   \<and> (sum_list (map count (computeAverages items)) = length items
        \<longleftrightarrow> (\<forall>it \<in> set items. course it \<in> set COURSES))"
proof -
  have a: "length (computeAverages items) = 4"
    by (simp add: computeAverages_map COURSES_def)
  have b: "map ca_course (computeAverages items) = [''Starter'', ''Main'', ''Dessert'', ''Beverage'']"
    by (simp add: computeAverages_map COURSES_def course_entry_def Let_def)
  have c: "\<forall>e \<in> set (computeAverages items).
        count e = length [it \<leftarrow> items. course it = ca_course e]
        \<and> average e =
            (if count e = 0 then Fin 0
             else parseFloat_toFixed2
                    (num_div_length (sum_prices [it \<leftarrow> items. course it = ca_course e]) (count e)))
        \<and> (mean_exact [it \<leftarrow> items. course it = ca_course e] \<longrightarrow>
             average e = mean_rounded2 [it \<leftarrow> items. course it = ca_course e])"
  proof
    fix e
    assume "e \<in> set (computeAverages items)"
    then obtain c where e: "e = course_entry items c"
      by (auto simp: computeAverages_map)
    have cc: "ca_course (course_entry items c) = c"
      by (simp add: course_entry_def Let_def)
    show "count e = length [it \<leftarrow> items. course it = ca_course e]
        \<and> average e =
            (if count e = 0 then Fin 0
             else parseFloat_toFixed2
                    (num_div_length (sum_prices [it \<leftarrow> items. course it = ca_course e]) (count e)))
        \<and> (mean_exact [it \<leftarrow> items. course it = ca_course e] \<longrightarrow>
             average e = mean_rounded2 [it \<leftarrow> items. course it = ca_course e])"
      unfolding e cc
    proof (intro conjI)
      show "count (course_entry items c) = length [it \<leftarrow> items. course it = c]"
        by (rule count_course_entry)
      show "average (course_entry items c) =
            (if count (course_entry items c) = 0 then Fin 0
             else parseFloat_toFixed2
                    (num_div_length (sum_prices [it \<leftarrow> items. course it = c])
                       (count (course_entry items c))))"
        by (simp add: count_course_entry average_course_entry)
      show "mean_exact [it \<leftarrow> items. course it = c] \<longrightarrow>
             average (course_entry items c) = mean_rounded2 [it \<leftarrow> items. course it = c]"
        using average_course_entry_exact by blast
    qed
  qed
  have d: "sum_list (map count (computeAverages items)) = length [it \<leftarrow> items. course it \<in> set COURSES]"
    by (rule sum_counts)
  have "length [it \<leftarrow> items. course it \<in> set COURSES] = length items
        \<longleftrightarrow> (\<forall>it \<in> set items. course it \<in> set COURSES)"
    by (metis filter_True length_filter_less nat_neq_iff)
  with d have e: "sum_list (map count (computeAverages items)) = length items
        \<longleftrightarrow> (\<forall>it \<in> set items. course it \<in> set COURSES)"
    by simp
  show ?thesis by (intro conjI a b c d e)
qed

text \<open>The seed items and a second starter: the Starter entry averages 45 and 220.\<close>

lemma starters_exact:
  "mean_exact [\<lparr>id' = ''1'', name = ''Tomato Soup'', course = ''Starter'', addOn = '''', price = Fin 45\<rparr>,
               \<lparr>id' = ''3'', name = ''Bruschetta'', course = ''Starter'', addOn = '''', price = Fin 220\<rparr>]
   \<and> mean_rounded2 [\<lparr>id' = ''1'', name = ''Tomato Soup'', course = ''Starter'', addOn = '''', price = Fin 45\<rparr>,
               \<lparr>id' = ''3'', name = ''Bruschetta'', course = ''Starter'', addOn = '''', price = Fin 220\<rparr>]
       = Fin (265 / 2)"
  by (simp add: mean_exact_def mean_rounded2_def exact_mean_def fin_value_def
      is_double_45 is_double_265 is_double_132_5 rounded2_132_5 fl_132_5)

theorem averages_by_course_witness:
  "mean_exact [it \<leftarrow> seed_items @ [\<lparr>id' = ''3'', name = ''Bruschetta'', course = ''Starter'',
                                      addOn = '''', price = Fin 220\<rparr>]. course it = ''Starter'']
   \<and> computeAverages (seed_items @ [\<lparr>id' = ''3'', name = ''Bruschetta'', course = ''Starter'',
                                      addOn = '''', price = Fin 220\<rparr>]) ! 0
       = \<lparr>ca_course = ''Starter'', average = Fin (265 / 2), count = 2\<rparr>
   \<and> sum_list (map count (computeAverages (seed_items @ [\<lparr>id' = ''3'', name = ''Bruschetta'',
          course = ''Starter'', addOn = '''', price = Fin 220\<rparr>]))) = 3"
proof -
  let ?xs = "seed_items @ [\<lparr>id' = ''3'', name = ''Bruschetta'', course = ''Starter'',
                            addOn = '''', price = Fin 220\<rparr>]"
  let ?st = "[\<lparr>id' = ''1'', name = ''Tomato Soup'', course = ''Starter'', addOn = '''', price = Fin 45\<rparr>,
              \<lparr>id' = ''3'', name = ''Bruschetta'', course = ''Starter'', addOn = '''', price = Fin 220\<rparr>]"
  let ?e = "computeAverages ?xs ! 0"
  note w = averages_by_course [of ?xs]
  have f: "[it \<leftarrow> ?xs. course it = ''Starter''] = ?st"
    by (simp add: seed_items_def)
  have me: "mean_exact [it \<leftarrow> ?xs. course it = ''Starter'']"
    unfolding f using starters_exact by simp
  from w have len: "length (computeAverages ?xs) = 4"
    and crs: "map ca_course (computeAverages ?xs) = [''Starter'', ''Main'', ''Dessert'', ''Beverage'']"
    by blast+
  from len have mem: "?e \<in> set (computeAverages ?xs)" by simp
  from len have "ca_course ?e = map ca_course (computeAverages ?xs) ! 0" by simp
  also from crs have "\<dots> = ''Starter''" by (simp only: nth_Cons_0)
  finally have c0: "ca_course ?e = ''Starter''" .
  from w mem have
    "count ?e = length [it \<leftarrow> ?xs. course it = ca_course ?e]
     \<and> (mean_exact [it \<leftarrow> ?xs. course it = ca_course ?e] \<longrightarrow>
          average ?e = mean_rounded2 [it \<leftarrow> ?xs. course it = ca_course ?e])"
    by blast
  with me have "count ?e = 2" "average ?e = Fin (265 / 2)"
    unfolding c0 f using starters_exact by simp_all
  with c0 have e: "?e = \<lparr>ca_course = ''Starter'', average = Fin (265 / 2), count = 2\<rparr>"
    by (cases ?e) simp
  have "\<forall>it \<in> set ?xs. course it \<in> set COURSES"
    by (simp add: seed_items_def COURSES_def)
  with w have "sum_list (map count (computeAverages ?xs)) = length ?xs" by blast
  then have s: "sum_list (map count (computeAverages ?xs)) = 3" by (simp add: seed_items_def)
  from me e s show ?thesis by (intro conjI)
qed

end
